theory Spec2Isabelle
  imports Complex_Main
begin

section \<open>Python values\<close>

text \<open>
  The exceptions that the modelled code can raise or let through.  \<open>KeyError\<close> is a
  failed dictionary subscript, \<open>ZeroDivisionError\<close> a float division by zero,
  \<open>KeyboardInterrupt\<close> the process interruption that \<open>VideoProcessor.run\<close> catches, and
  \<open>RuntimeError\<close> stands for any other exception an external collaborator raises.
\<close>

datatype exn = KeyError | ZeroDivisionError | KeyboardInterrupt | RuntimeError

text \<open>
  Coordinates are Python floats in the pipeline (\<open>tracker.py\<close> converts every corner with
  \<open>float\<close>); they are modelled by the real number a float denotes, with exact arithmetic.
  \<open>int(x)\<close> on a float truncates toward zero.
\<close>

definition py_int :: "real \<Rightarrow> int" where
  "py_int x = (if 0 \<le> x then \<lfloor>x\<rfloor> else \<lceil>x\<rceil>)"

text \<open>
  A dictionary entry read with \<open>obj.get(key, default)\<close>: the key may be absent, present with
  the value \<open>None\<close>, or present with a proper value.
\<close>

datatype 'a entry = Absent | PyNone | Val 'a

type_synonym bbox = "real \<times> real \<times> real \<times> real"

text \<open>
  A tracked object is the dictionary \<open>tracker.py\<close> builds.  \<open>track_id\<close> and \<open>bbox\<close> are read
  with a subscript everywhere and are always present; the descriptive entries are read
  with \<open>get\<close> in \<open>video_processor.py\<close>.
\<close>

record tracked_object =
  track_id :: int
  bbox :: bbox
  confidence :: "real entry"
  class_id :: "int entry"
  class_name :: "string entry"

section \<open>The lane counter\<close>

type_synonym point = "int \<times> int"
type_synonym polygon = "point list"

text \<open>
  \<open>lanes\<close> is a Python dictionary; iteration follows insertion order, so it is an
  association list (a Python dictionary has no repeated key).  \<open>counts\<close> and
  \<open>tracked_ids\<close> are only ever subscripted, so they are maps.
\<close>

record lane_counter =
  lanes :: "(int \<times> polygon) list"
  counts :: "int \<rightharpoonup> int"
  tracked_ids :: "int \<rightharpoonup> int set"

text \<open>\<open>LaneCounter.__init__\<close>: both dictionaries are comprehensions over the keys of \<open>lanes\<close>.\<close>

definition LaneCounter_init :: "(int \<times> polygon) list \<Rightarrow> lane_counter" where
  "LaneCounter_init ls =
     \<lparr>lanes = ls,
      counts = map_of (map (\<lambda>(lane_id, polygon). (lane_id, 0)) ls),
      tracked_ids = map_of (map (\<lambda>(lane_id, polygon). (lane_id, {})) ls)\<rparr>"

text \<open>
  \<open>cv2.pointPolygonTest(np.array(polygon, np.int32), (cx, cy), False)\<close> belongs to OpenCV,
  not to this repository: it is the parameter \<open>ppt\<close> of every function below (positive
  inside, zero on an edge, negative outside).  \<open>lane_scan\<close> is the \<open>for\<close> loop of
  \<open>assign_lane\<close> over \<open>self.lanes.items()\<close>, with its early \<open>return\<close>.
\<close>

type_synonym point_polygon_test = "polygon \<Rightarrow> point \<Rightarrow> real"

fun lane_scan :: "point_polygon_test \<Rightarrow> (int \<times> polygon) list \<Rightarrow> point \<Rightarrow> int option" where
  "lane_scan ppt [] pt = None"
| "lane_scan ppt ((lane_id, polygon) # rest) pt =
     (if ppt polygon pt \<ge> 0 then Some lane_id else lane_scan ppt rest pt)"

definition centroid :: "bbox \<Rightarrow> point" where
  "centroid b = (case b of (x1, y1, x2, y2) \<Rightarrow> (py_int ((x1 + x2) / 2), py_int ((y1 + y2) / 2)))"

definition assign_lane :: "point_polygon_test \<Rightarrow> lane_counter \<Rightarrow> bbox \<Rightarrow> int option" where
  "assign_lane ppt lc b = lane_scan ppt (lanes lc) (centroid b)"

text \<open>
  The body of the \<open>for\<close> loop of \<open>update_counts\<close>.  Each subscript of \<open>tracked_ids\<close> and
  \<open>counts\<close> raises \<open>KeyError\<close> on a missing key.
\<close>

definition update_counts_body :: "point_polygon_test \<Rightarrow> lane_counter \<Rightarrow> tracked_object \<Rightarrow> exn + lane_counter" where
  "update_counts_body ppt lc obj =
     (case assign_lane ppt lc (bbox obj) of
        None \<Rightarrow> Inr lc
      | Some lane_id \<Rightarrow>
          (case tracked_ids lc lane_id of
             None \<Rightarrow> Inl KeyError
           | Some ids \<Rightarrow>
               if track_id obj \<notin> ids then
                 (case counts lc lane_id of
                    None \<Rightarrow> Inl KeyError
                  | Some c \<Rightarrow>
                      Inr (lc\<lparr>tracked_ids := (tracked_ids lc)(lane_id \<mapsto> insert (track_id obj) ids),
                              counts := (counts lc)(lane_id \<mapsto> c + 1)\<rparr>))
               else Inr lc))"

text \<open>
  \<open>update_counts\<close> mutates the counter and returns \<open>self.counts\<close>; the model returns the
  updated counter, whose \<open>counts\<close> field is the returned dictionary.
\<close>

fun update_counts :: "point_polygon_test \<Rightarrow> lane_counter \<Rightarrow> tracked_object list \<Rightarrow> exn + lane_counter" where
  "update_counts ppt lc [] = Inr lc"
| "update_counts ppt lc (obj # objs) =
     (case update_counts_body ppt lc obj of
        Inl e \<Rightarrow> Inl e
      | Inr lc' \<Rightarrow> update_counts ppt lc' objs)"

text \<open>A run of the ledger: one \<open>update_counts\<close> call per frame, on the same counter.\<close>

fun update_counts_calls :: "point_polygon_test \<Rightarrow> lane_counter \<Rightarrow> tracked_object list list \<Rightarrow> exn + lane_counter" where
  "update_counts_calls ppt lc [] = Inr lc"
| "update_counts_calls ppt lc (objs # later) =
     (case update_counts ppt lc objs of
        Inl e \<Rightarrow> Inl e
      | Inr lc' \<Rightarrow> update_counts_calls ppt lc' later)"

text \<open>
  The value \<open>cv2.pointPolygonTest\<close> has on an axis-aligned rectangle listed as top-left,
  top-right, bottom-right, bottom-left, the shape \<open>define_dynamic_lanes\<close> builds: 1 inside,
  0 on the border, -1 outside.  It instantiates \<open>ppt\<close> at concrete inputs.
\<close>

fun rect_test :: point_polygon_test where
  "rect_test [(xa, ya), (xb, yb), (xc, yc), (xd, yd)] (px, py) =
     (if xa < px \<and> px < xb \<and> ya < py \<and> py < yc then 1
      else if xa \<le> px \<and> px \<le> xb \<and> ya \<le> py \<and> py \<le> yc then 0
      else -1)"
| "rect_test polygon pt = -1"

text \<open>The track identifiers that the objects of one call resolve to lane \<open>l\<close>.\<close>

definition resolved :: "point_polygon_test \<Rightarrow> (int \<times> polygon) list \<Rightarrow> tracked_object list \<Rightarrow> int \<Rightarrow> int set" where
  "resolved ppt ls objs l =
     track_id ` {obj \<in> set objs. lane_scan ppt ls (centroid (bbox obj)) = Some l}"

section \<open>The tracker\<close>

text \<open>
  A detection is the dictionary \<open>detector.py\<close> builds; every key is always present.
\<close>

record detection =
  det_bbox :: bbox
  det_confidence :: real
  det_class_id :: int
  det_class_name :: string

text \<open>
  \<open>VehicleTracker._compute_iou\<close>.  The final division is a float division, which raises
  \<open>ZeroDivisionError\<close> on a zero denominator.
\<close>

definition compute_iou :: "bbox \<Rightarrow> bbox \<Rightarrow> exn + real" where
  "compute_iou boxA boxB =
     (case boxA of (ax1, ay1, ax2, ay2) \<Rightarrow>
      case boxB of (bx1, by1, bx2, by2) \<Rightarrow>
        let xA = max ax1 bx1;
            yA = max ay1 by1;
            xB = min ax2 bx2;
            yB = min ay2 by2;
            interArea = max 0 (xB - xA + 1) * max 0 (yB - yA + 1)
        in if interArea = 0 then Inr 0
           else
             let boxAArea = (ax2 - ax1 + 1) * (ay2 - ay1 + 1);
                 boxBArea = (bx2 - bx1 + 1) * (by2 - by1 + 1)
             in if boxAArea + boxBArea - interArea = 0 then Inl ZeroDivisionError
                else Inr (interArea / (boxAArea + boxBArea - interArea)))"

text \<open>
  A row of the array that the external SORT tracker returns: four corners and the track
  identifier, all floats.  Its result for the frame is an argument of the model.
\<close>

type_synonym sort_track = "real \<times> real \<times> real \<times> real \<times> real"

text \<open>The inner loop of \<open>VehicleTracker.update\<close>: the first detection whose IoU exceeds 0.5.\<close>

fun find_match :: "detection list \<Rightarrow> bbox \<Rightarrow> exn + detection option" where
  "find_match [] tb = Inr None"
| "find_match (det # dets) tb =
     (case compute_iou (det_bbox det) tb of
        Inl e \<Rightarrow> Inl e
      | Inr iou \<Rightarrow> if iou > 0.5 then Inr (Some det) else find_match dets tb)"

text \<open>
  The dictionary appended for one track.  \<open>match\<close> is a detection dictionary or \<open>None\<close>; a
  detection dictionary is never empty, so \<open>if match\<close> tests for \<open>None\<close>.
\<close>

definition tracked_entry :: "sort_track \<Rightarrow> detection option \<Rightarrow> tracked_object" where
  "tracked_entry track match =
     (case track of (x1, y1, x2, y2, tid) \<Rightarrow>
        \<lparr>track_id = py_int tid,
         bbox = (x1, y1, x2, y2),
         confidence = (case match of Some det \<Rightarrow> Val (det_confidence det) | None \<Rightarrow> PyNone),
         class_id = (case match of Some det \<Rightarrow> Val (det_class_id det) | None \<Rightarrow> PyNone),
         class_name = (case match of Some det \<Rightarrow> Val (det_class_name det) | None \<Rightarrow> PyNone)\<rparr>)"

text \<open>The outer loop of \<open>VehicleTracker.update\<close>, over the rows SORT returned.\<close>

fun VehicleTracker_update :: "detection list \<Rightarrow> sort_track list \<Rightarrow> exn + tracked_object list" where
  "VehicleTracker_update detections [] = Inr []"
| "VehicleTracker_update detections ((x1, y1, x2, y2, tid) # tracks) =
     (case find_match detections (x1, y1, x2, y2) of
        Inl e \<Rightarrow> Inl e
      | Inr match \<Rightarrow>
          (case VehicleTracker_update detections tracks of
             Inl e \<Rightarrow> Inl e
           | Inr tracked_objects \<Rightarrow> Inr (tracked_entry (x1, y1, x2, y2, tid) match # tracked_objects)))"

text \<open>
  The specification's words for IoU: areas with the inclusive pixel-edge convention, the
  overlap area, and overlap over union.  \<open>pixels_disjoint\<close>: under that convention a box
  covers the pixels \<open>x1..x2\<close>, so two boxes share no pixel when one starts at least one
  pixel after the other's last one on some axis.
\<close>

definition box_area :: "bbox \<Rightarrow> real" where
  "box_area b = (case b of (x1, y1, x2, y2) \<Rightarrow> (x2 - x1 + 1) * (y2 - y1 + 1))"

definition overlap_area :: "bbox \<Rightarrow> bbox \<Rightarrow> real" where
  "overlap_area a b =
     (case a of (ax1, ay1, ax2, ay2) \<Rightarrow>
      case b of (bx1, by1, bx2, by2) \<Rightarrow>
        max 0 (min ax2 bx2 - max ax1 bx1 + 1) * max 0 (min ay2 by2 - max ay1 by1 + 1))"

definition spec_iou :: "bbox \<Rightarrow> bbox \<Rightarrow> real" where
  "spec_iou a b = overlap_area a b / (box_area a + box_area b - overlap_area a b)"


definition pixels_disjoint :: "bbox \<Rightarrow> bbox \<Rightarrow> bool" where
  "pixels_disjoint a b =
     (case a of (ax1, ay1, ax2, ay2) \<Rightarrow>
      case b of (bx1, by1, bx2, by2) \<Rightarrow>
        ax2 + 1 \<le> bx1 \<or> bx2 + 1 \<le> ax1 \<or> ay2 + 1 \<le> by1 \<or> by2 + 1 \<le> ay1)"

definition track_box :: "sort_track \<Rightarrow> bbox" where
  "track_box track = (case track of (x1, y1, x2, y2, tid) \<Rightarrow> (x1, y1, x2, y2))"

section \<open>Text formatting\<close>

text \<open>
  \<open>str\<close> of a Python integer, the \<open>%02d\<close> conversion, and \<open>str(timedelta(seconds=n))\<close> of the
  standard library: hours, minutes and seconds of the time of day, after a day count when
  the duration reaches 24 hours.
\<close>

definition digit :: "nat \<Rightarrow> char" where
  "digit d = ''0123456789'' ! d"

fun str_nat :: "nat \<Rightarrow> string" where
  "str_nat n = (if n < 10 then [digit n] else str_nat (n div 10) @ [digit (n mod 10)])"

definition str_int :: "int \<Rightarrow> string" where
  "str_int i = (if i < 0 then CHR ''-'' # str_nat (nat (- i)) else str_nat (nat i))"

definition pad2 :: "int \<Rightarrow> string" where
  "pad2 i = (if 0 \<le> i \<and> i < 10 then CHR ''0'' # str_int i else str_int i)"

definition timedelta_str :: "int \<Rightarrow> string" where
  "timedelta_str seconds =
     (let days = seconds div 86400;
          secs = seconds mod 86400;
          mm = secs div 60;
          ss = secs mod 60;
          hh = mm div 60;
          mm = mm mod 60;
          s = str_int hh @ '':'' @ pad2 mm @ '':'' @ pad2 ss
      in if days \<noteq> 0
         then str_int days @ '' day'' @ (if \<bar>days\<bar> \<noteq> 1 then ''s'' else '''') @ '', '' @ s
         else s)"

text \<open>
  The \<open>.2f\<close> format of a float: the exact value rounded to two decimals, ties to even.
\<close>

definition round_half_even :: "real \<Rightarrow> int" where
  "round_half_even y =
     (let f = \<lfloor>y\<rfloor>; r = y - of_int f
      in if r < 1 / 2 then f else if r > 1 / 2 then f + 1 else if even f then f else f + 1)"

definition format_2f :: "real \<Rightarrow> string" where
  "format_2f x =
     (let n = round_half_even (\<bar>x\<bar> * 100)
      in (if x < 0 then ''-'' else '''') @ str_int (n div 100) @ ''.'' @ pad2 (n mod 100))"

section \<open>The CSV logger\<close>

text \<open>
  \<open>CSVLogger.__init__\<close> writes the header row; \<open>CSVLogger.log\<close> writes one row, whose cells
  \<open>csv.writer\<close> renders with \<open>str\<close>.
\<close>

definition csv_header :: "string list" where
  "csv_header = [''VehicleID'', ''Lane'', ''Frame'', ''Timestamp'']"

definition CSVLogger_log :: "int \<Rightarrow> int \<Rightarrow> int \<Rightarrow> real \<Rightarrow> string list" where
  "CSVLogger_log vehicle_id lane_id frame_idx timestamp =
     (let time_str = timedelta_str (py_int timestamp)
      in [str_int vehicle_id, str_int lane_id, str_int frame_idx, time_str])"

section \<open>The video processor\<close>

text \<open>
  The text \<open>process_frame\<close> draws for one tracked object.  \<open>obj.get("class_name", "vehicle")\<close>
  yields the default only when the key is absent; \<open>obj.get("confidence") or 0.0\<close> yields
  0.0 for an absent key, for \<open>None\<close> and for 0.0.
\<close>

definition label_text :: "tracked_object \<Rightarrow> string" where
  "label_text obj =
     (let name = (case class_name obj of Absent \<Rightarrow> Some ''vehicle'' | PyNone \<Rightarrow> None | Val s \<Rightarrow> Some s);
          conf = (case confidence obj of Val c \<Rightarrow> (if c = 0 then 0 else c) | PyNone \<Rightarrow> 0 | Absent \<Rightarrow> 0)
      in ''ID '' @ str_int (track_id obj) @ '' '' @
         (case name of None \<Rightarrow> ''None'' | Some s \<Rightarrow> s) @ '' '' @ format_2f conf)"

text \<open>
  \<open>process_frame\<close>: the annotated frame is modelled by the list of the labels drawn on it
  (\<open>draw_lanes\<close> only draws); the second component is the counter after \<open>update_counts\<close>.
\<close>

definition process_frame :: "point_polygon_test \<Rightarrow> lane_counter \<Rightarrow> tracked_object list \<Rightarrow> exn + string list \<times> lane_counter" where
  "process_frame ppt lc tracked_objects =
     (let labels = map label_text tracked_objects
      in case update_counts ppt lc tracked_objects of
           Inl e \<Rightarrow> Inl e
         | Inr lc' \<Rightarrow> Inr (labels, lc'))"

text \<open>
  What the outside world supplies in one iteration of the loop of \<open>run\<close> whose read
  succeeded: the result of \<open>detector.detect_vehicles\<close>, the result of the SORT call inside
  \<open>tracker.update\<close> (each may raise instead), and whether the key read by \<open>cv2.waitKey\<close> is
  \<open>q\<close>.  A process interruption is a \<open>KeyboardInterrupt\<close> raised by one of the two calls.
\<close>

record frame_input =
  detector_result :: "exn + detection list"
  sort_result :: "exn + sort_track list"
  quit_key :: bool

text \<open>
  Everything \<open>main\<close> and \<open>run\<close> act on: the counter, the frame rate and preview flag of the
  processor, the frames written to the output video, the rows written to the CSV file,
  the progress bar, and how often each resource has been released or closed.
\<close>

record world =
  counter :: lane_counter
  fps :: real
  show_preview :: bool
  video_out :: "string list list"
  csv_rows :: "string list list"
  progress :: nat
  cap_releases :: nat
  out_releases :: nat
  pbar_closes :: nat
  window_closes :: nat
  csv_closes :: nat

text \<open>How one iteration of the \<open>while True\<close> loop ends.\<close>

datatype signal = Continue | Break | Raise exn

text \<open>Step 5 of the loop body: one \<open>csv_writer\<close> call per tracked object that is in a lane.\<close>

fun log_records :: "point_polygon_test \<Rightarrow> lane_counter \<Rightarrow> int \<Rightarrow> real \<Rightarrow> tracked_object list \<Rightarrow> string list list" where
  "log_records ppt lc frame_idx timestamp [] = []"
| "log_records ppt lc frame_idx timestamp (obj # objs) =
     (case assign_lane ppt lc (bbox obj) of
        None \<Rightarrow> log_records ppt lc frame_idx timestamp objs
      | Some lane_id \<Rightarrow>
          CSVLogger_log (track_id obj) lane_id frame_idx timestamp
            # log_records ppt lc frame_idx timestamp objs)"

text \<open>
  The loop body after a successful read, with \<open>frame_idx\<close> already incremented.  The
  division by \<open>self.fps\<close> is a float division.  An exception ends the iteration with the
  state as it was before the raising call.
\<close>

definition frame_body :: "point_polygon_test \<Rightarrow> int \<Rightarrow> world \<Rightarrow> frame_input \<Rightarrow> world \<times> signal" where
  "frame_body ppt frame_idx w f =
     (if fps w = 0 then (w, Raise ZeroDivisionError)
      else
        let timestamp = real_of_int frame_idx / fps w
        in case detector_result f of
             Inl e \<Rightarrow> (w, Raise e)
           | Inr detections \<Rightarrow>
               (case sort_result f of
                  Inl e \<Rightarrow> (w, Raise e)
                | Inr tracks \<Rightarrow>
                    (case VehicleTracker_update detections tracks of
                       Inl e \<Rightarrow> (w, Raise e)
                     | Inr tracked_objects \<Rightarrow>
                         (case process_frame ppt (counter w) tracked_objects of
                            Inl e \<Rightarrow> (w, Raise e)
                          | Inr (annotated_frame, lc') \<Rightarrow>
                              let w1 = w\<lparr>counter := lc', video_out := video_out w @ [annotated_frame]\<rparr>
                              in if show_preview w1 \<and> quit_key f then (w1, Break)
                                 else
                                   (w1\<lparr>csv_rows := csv_rows w1 @ log_records ppt lc' frame_idx timestamp tracked_objects,
                                       progress := progress w1 + 1\<rparr>,
                                    Continue)))))"

text \<open>
  The loop over the frames of the stream; after the last frame \<open>cap.read()\<close> fails and the
  loop breaks.
\<close>

fun run_loop :: "point_polygon_test \<Rightarrow> int \<Rightarrow> world \<Rightarrow> frame_input list \<Rightarrow> world \<times> signal" where
  "run_loop ppt frame_idx w [] = (w, Break)"
| "run_loop ppt frame_idx w (f # fs) =
     (case frame_body ppt (frame_idx + 1) w f of
        (w', Continue) \<Rightarrow> run_loop ppt (frame_idx + 1) w' fs
      | (w', Break) \<Rightarrow> (w', Break)
      | (w', Raise e) \<Rightarrow> (w', Raise e))"

text \<open>
  \<open>VideoProcessor.run\<close>: \<open>except KeyboardInterrupt\<close> swallows the interruption, any other
  exception stays pending while the \<open>finally\<close> block releases the input stream, the output
  writer, the progress bar and the preview windows.
\<close>

definition run :: "point_polygon_test \<Rightarrow> world \<Rightarrow> frame_input list \<Rightarrow> world \<times> exn option" where
  "run ppt w frames =
     (case run_loop ppt 0 w frames of
        (w1, s) \<Rightarrow>
          let propagating = (case s of Raise e \<Rightarrow> if e = KeyboardInterrupt then None else Some e | _ \<Rightarrow> None);
              w2 = w1\<lparr>cap_releases := cap_releases w1 + 1,
                      out_releases := out_releases w1 + 1,
                      pbar_closes := pbar_closes w1 + 1,
                      window_closes := window_closes w1 + 1\<rparr>
          in (w2, propagating))"

text \<open>
  \<open>main\<close> from the construction of the components on, which is taken to succeed (the lanes
  and the frame rate of the opened video are arguments): \<open>csv_logger.close()\<close> is the
  statement after \<open>processor.run(...)\<close>, so it is not reached when an exception leaves \<open>run\<close>.
\<close>

definition main :: "point_polygon_test \<Rightarrow> (int \<times> polygon) list \<Rightarrow> real \<Rightarrow> frame_input list \<Rightarrow> world \<times> exn option" where
  "main ppt ls video_fps frames =
     (let w0 = \<lparr>counter = LaneCounter_init ls, fps = video_fps, show_preview = True,
                video_out = [], csv_rows = [csv_header], progress = 0,
                cap_releases = 0, out_releases = 0, pbar_closes = 0, window_closes = 0, csv_closes = 0\<rparr>
      in case run ppt w0 frames of
           (w, Some e) \<Rightarrow> (w, Some e)
         | (w, None) \<Rightarrow> (w\<lparr>csv_closes := csv_closes w + 1\<rparr>, None))"

section \<open>Concrete inputs\<close>

text \<open>
  The lanes and the tracked objects of the self-test at the end of \<open>lane_counter.py\<close>; the
  objects carry no label, as \<open>tracker.py\<close> builds them when no detection matches.
\<close>

definition example_lanes :: "(int \<times> polygon) list" where
  "example_lanes =
     [(1, [(100, 300), (250, 300), (250, 720), (100, 720)]),
      (2, [(250, 300), (400, 300), (400, 720), (250, 720)]),
      (3, [(400, 300), (550, 300), (550, 720), (400, 720)])]"

definition unlabelled :: "int \<Rightarrow> bbox \<Rightarrow> tracked_object" where
  "unlabelled t b = \<lparr>track_id = t, bbox = b, confidence = PyNone, class_id = PyNone, class_name = PyNone\<rparr>"

definition selftest_objects :: "tracked_object list" where
  "selftest_objects =
     [unlabelled 1 (120, 350, 200, 450), unlabelled 2 (300, 360, 370, 460), unlabelled 3 (460, 370, 530, 480)]"


text \<open>The counter after one \<open>update_counts\<close> call on the self-test objects.\<close>

definition after_selftest :: lane_counter where
  "after_selftest =
     \<lparr>lanes = example_lanes,
      counts = [1 \<mapsto> 1, 2 \<mapsto> 1, 3 \<mapsto> 1],
      tracked_ids = [1 \<mapsto> {1}, 2 \<mapsto> {2}, 3 \<mapsto> {3}]\<rparr>"



text \<open>
  Frames of a stream: one on which the detector raises, and one with a car that SORT tracks
  as track 1 inside lane 1, with or without the quit key pressed during the preview.
\<close>

definition failing_detector_frame :: frame_input where
  "failing_detector_frame = \<lparr>detector_result = Inl RuntimeError, sort_result = Inr [], quit_key = False\<rparr>"

definition lane1_frame :: "bool \<Rightarrow> frame_input" where
  "lane1_frame q =
     \<lparr>detector_result =
        Inr [\<lparr>det_bbox = (120, 350, 200, 450), det_confidence = 0.9, det_class_id = 2, det_class_name = ''car''\<rparr>],
      sort_result = Inr [(120, 350, 200, 450, 1)],
      quit_key = q\<rparr>"

text \<open>How often the input stream, the output writer, the progress bar and the CSV log were released.\<close>

definition released :: "world \<times> exn option \<Rightarrow> nat \<times> nat \<times> nat \<times> nat" where
  "released r = (cap_releases (fst r), out_releases (fst r), pbar_closes (fst r), csv_closes (fst r))"


definition count_of :: "exn + lane_counter \<Rightarrow> int \<Rightarrow> int option" where
  "count_of r l = (case r of Inl e \<Rightarrow> None | Inr lc \<Rightarrow> counts lc l)"

section \<open>Predicates used in the proofs\<close>

text \<open>
  \<open>keyed\<close>: every configured lane is a key of both dictionaries.  \<open>grows_by lc R lc'\<close>: the
  counter \<open>lc'\<close> is \<open>lc\<close> with the identifiers \<open>R l\<close> added to lane \<open>l\<close>'s set and the count
  raised by the number of new ones.
\<close>

definition grows_by :: "lane_counter \<Rightarrow> (int \<Rightarrow> int set) \<Rightarrow> lane_counter \<Rightarrow> bool" where
  "grows_by lc R lc' \<longleftrightarrow>
     lanes lc' = lanes lc \<and>
     dom (tracked_ids lc') = dom (tracked_ids lc) \<and>
     dom (counts lc') = dom (counts lc) \<and>
     (\<forall>l S c. tracked_ids lc l = Some S \<longrightarrow> counts lc l = Some c \<longrightarrow>
        tracked_ids lc' l = Some (S \<union> R l) \<and> counts lc' l = Some (c + int (card (R l - S))))"

definition keyed :: "lane_counter \<Rightarrow> bool" where
  "keyed lc \<longleftrightarrow> fst ` set (lanes lc) \<subseteq> dom (tracked_ids lc) \<and> fst ` set (lanes lc) \<subseteq> dom (counts lc)"

text \<open>
  \<open>benign\<close>: neither external call of the frame raises anything but \<open>KeyboardInterrupt\<close>.
  \<open>same_releases\<close>: no resource was released between two states.
\<close>

definition benign :: "frame_input \<Rightarrow> bool" where
  "benign f \<longleftrightarrow>
     (case detector_result f of Inl e \<Rightarrow> e = KeyboardInterrupt | Inr detections \<Rightarrow> True) \<and>
     (case sort_result f of Inl e \<Rightarrow> e = KeyboardInterrupt | Inr tracks \<Rightarrow> True)"

definition same_releases :: "world \<Rightarrow> world \<Rightarrow> bool" where
  "same_releases w w' \<longleftrightarrow>
     cap_releases w' = cap_releases w \<and> out_releases w' = out_releases w \<and>
     pbar_closes w' = pbar_closes w \<and> window_closes w' = window_closes w \<and>
     csv_closes w' = csv_closes w \<and> fps w' = fps w \<and> show_preview w' = show_preview w"


section \<open>Evaluation rules\<close>

lemmas ledger_simps = LaneCounter_init_def assign_lane_def centroid_def py_int_def
  update_counts_body_def


section \<open>The ledger: what one call and a whole run do\<close>

lemma lane_scan_mem: "lane_scan ppt ls pt = Some l \<Longrightarrow> l \<in> fst ` set ls"
  by (induction ls) (auto split: if_splits)

lemma finite_resolved: "finite (resolved ppt ls objs l)"
  by (simp add: resolved_def)

lemma resolved_Nil: "resolved ppt ls [] l = {}"
  by (simp add: resolved_def)

lemma resolved_Cons: "resolved ppt ls (obj # objs) l = resolved ppt ls [obj] l \<union> resolved ppt ls objs l"
  by (auto simp: resolved_def)

lemma resolved_single:
  "resolved ppt ls [obj] l = (if lane_scan ppt ls (centroid (bbox obj)) = Some l then {track_id obj} else {})"
  by (auto simp: resolved_def)

lemma grows_by_refl: "(\<And>l. R l = {}) \<Longrightarrow> grows_by lc R lc"
  by (simp add: grows_by_def)

lemma card_split:
  assumes "finite A" "finite B"
  shows "card ((A \<union> B) - S) = card (A - S) + card (B - (S \<union> A))"
proof -
  have "(A \<union> B) - S = (A - S) \<union> (B - (S \<union> A))" by auto
  moreover have "(A - S) \<inter> (B - (S \<union> A)) = {}" by auto
  ultimately show ?thesis using assms by (simp add: card_Un_disjoint)
qed

lemma grows_by_trans:
  assumes "grows_by lc R1 lc1" "grows_by lc1 R2 lc2" "\<And>l. finite (R1 l)" "\<And>l. finite (R2 l)"
  shows "grows_by lc (\<lambda>l. R1 l \<union> R2 l) lc2"
  using assms unfolding grows_by_def
  by (auto simp: card_split Un_assoc)

lemma keyed_grows: "keyed lc \<Longrightarrow> grows_by lc R lc' \<Longrightarrow> keyed lc'"
  by (simp add: keyed_def grows_by_def)

lemma body_grows:
  assumes "keyed lc"
  shows "\<exists>lc'. update_counts_body ppt lc obj = Inr lc' \<and> grows_by lc (resolved ppt (lanes lc) [obj]) lc'"
proof (cases "assign_lane ppt lc (bbox obj)")
  case None
  then show ?thesis
    by (simp add: update_counts_body_def grows_by_refl resolved_single assign_lane_def)
next
  case (Some lane_id)
  then have mem: "lane_id \<in> fst ` set (lanes lc)"
    by (auto simp: assign_lane_def dest: lane_scan_mem)
  from mem assms have "lane_id \<in> dom (tracked_ids lc)" "lane_id \<in> dom (counts lc)"
    unfolding keyed_def by blast+
  then obtain ids c where ids: "tracked_ids lc lane_id = Some ids" and c: "counts lc lane_id = Some c"
    by blast
  show ?thesis
  proof (cases "track_id obj \<in> ids")
    case True
    with Some ids c show ?thesis
      by (auto simp: update_counts_body_def grows_by_def resolved_single assign_lane_def insert_absorb)
  next
    case False
    then have "{track_id obj} - ids = {track_id obj}" by auto
    with False Some ids c show ?thesis
      by (auto simp: update_counts_body_def grows_by_def resolved_single assign_lane_def)
  qed
qed

lemma update_counts_grows:
  "keyed lc \<Longrightarrow> \<exists>lc'. update_counts ppt lc objs = Inr lc' \<and> grows_by lc (resolved ppt (lanes lc) objs) lc'"
proof (induction objs arbitrary: lc)
  case Nil
  then show ?case by (simp add: grows_by_refl resolved_Nil)
next
  case (Cons obj objs)
  from body_grows [OF Cons.prems] obtain lc1 where
    b: "update_counts_body ppt lc obj = Inr lc1" and g1: "grows_by lc (resolved ppt (lanes lc) [obj]) lc1"
    by blast
  have k1: "keyed lc1" using Cons.prems g1 by (rule keyed_grows)
  have l1: "lanes lc1 = lanes lc" using g1 by (simp add: grows_by_def)
  from Cons.IH [OF k1] obtain lc2 where
    u: "update_counts ppt lc1 objs = Inr lc2" and g2: "grows_by lc1 (resolved ppt (lanes lc) objs) lc2"
    by (auto simp: l1)
  have "grows_by lc (\<lambda>l. resolved ppt (lanes lc) [obj] l \<union> resolved ppt (lanes lc) objs l) lc2"
    using g1 g2 by (rule grows_by_trans) (rule finite_resolved)+
  then have "grows_by lc (resolved ppt (lanes lc) (obj # objs)) lc2"
    by (simp add: resolved_Cons [symmetric])
  with b u show ?case by simp
qed


lemma update_counts_append:
  "update_counts ppt lc (xs @ ys) =
     (case update_counts ppt lc xs of Inl e \<Rightarrow> Inl e | Inr lc' \<Rightarrow> update_counts ppt lc' ys)"
  by (induction xs arbitrary: lc) (auto split: sum.splits)

lemma update_counts_calls_concat:
  "update_counts_calls ppt lc frames = update_counts ppt lc (concat frames)"
  by (induction frames arbitrary: lc) (auto simp: update_counts_append split: sum.splits)

lemma map_of_const:
  "map_of (map (\<lambda>(k, p). (k, v)) ls) l = (if l \<in> fst ` set ls then Some v else None)"
  by (induction ls) auto

lemma init_fields:
  "lanes (LaneCounter_init ls) = ls"
  "counts (LaneCounter_init ls) l = (if l \<in> fst ` set ls then Some 0 else None)"
  "tracked_ids (LaneCounter_init ls) l = (if l \<in> fst ` set ls then Some {} else None)"
  by (simp_all add: LaneCounter_init_def map_of_const)

lemma init_dom:
  "dom (counts (LaneCounter_init ls)) = fst ` set ls"
  "dom (tracked_ids (LaneCounter_init ls)) = fst ` set ls"
  by (auto simp: init_fields dom_def)

lemma init_keyed: "keyed (LaneCounter_init ls)"
  by (simp add: keyed_def init_dom init_fields)

lemma run_grows:
  "\<exists>lc. update_counts_calls ppt (LaneCounter_init ls) frames = Inr lc \<and>
        grows_by (LaneCounter_init ls) (resolved ppt ls (concat frames)) lc"
  using update_counts_grows [OF init_keyed, of ppt ls "concat frames"]
  by (simp add: update_counts_calls_concat init_fields)

lemma run_state:
  "\<exists>lc. update_counts_calls ppt (LaneCounter_init ls) frames = Inr lc \<and>
        lanes lc = ls \<and> dom (counts lc) = fst ` set ls \<and> dom (tracked_ids lc) = fst ` set ls \<and>
        (\<forall>l\<in>fst ` set ls.
           tracked_ids lc l = Some (resolved ppt ls (concat frames) l) \<and>
           counts lc l = Some (int (card (resolved ppt ls (concat frames) l))))"
proof -
  from run_grows obtain lc where
    r: "update_counts_calls ppt (LaneCounter_init ls) frames = Inr lc" and
    g: "grows_by (LaneCounter_init ls) (resolved ppt ls (concat frames)) lc"
    by blast
  from g have "lanes lc = ls" "dom (counts lc) = fst ` set ls" "dom (tracked_ids lc) = fst ` set ls"
    by (simp_all add: grows_by_def init_dom init_fields)
  moreover have "tracked_ids lc l = Some (resolved ppt ls (concat frames) l) \<and>
           counts lc l = Some (int (card (resolved ppt ls (concat frames) l)))"
    if "l \<in> fst ` set ls" for l
    using g that unfolding grows_by_def by (simp add: init_fields)
  ultimately show ?thesis using r by blast
qed

lemma keyed_run:
  "update_counts_calls ppt (LaneCounter_init ls) frames = Inr lc \<Longrightarrow> keyed lc \<and> lanes lc = ls"
  using run_state [of ppt ls frames] by (auto simp: keyed_def)







lemma assign_lane_mem: "assign_lane ppt lc b = Some l \<Longrightarrow> l \<in> fst ` set (lanes lc)"
  unfolding assign_lane_def by (rule lane_scan_mem)


lemma grows_by_ids:
  "grows_by lc R lc' \<Longrightarrow> tracked_ids lc l = Some S \<Longrightarrow> counts lc l = Some c \<Longrightarrow>
     tracked_ids lc' l = Some (S \<union> R l) \<and> counts lc' l = Some (c + int (card (R l - S)))"
  unfolding grows_by_def by simp



lemma selftest_result:
  "update_counts_calls rect_test (LaneCounter_init example_lanes) [selftest_objects] = Inr after_selftest"
  by (auto simp add: ledger_simps example_lanes_def selftest_objects_def unlabelled_def after_selftest_def fun_eq_iff)

section \<open>Claims about the lane counter\<close>




text \<open>
  C3: once T is in L's counted set, a further \<open>update_counts\<close> call in which every object
  that resolves to L is already counted there leaves L's counted set and L's count
  unchanged; the count is the number of distinct identifiers counted in L; and a call that
  only presents T to L again leaves the whole counter as it was.
\<close>

theorem reattribution_is_idempotent:
  assumes "update_counts_calls ppt (LaneCounter_init ls) frames = Inr lc"
    and "tracked_ids lc L = Some S"
    and "\<forall>obj\<in>set objs. assign_lane ppt lc (bbox obj) = Some L \<longrightarrow> track_id obj \<in> S"
  shows "(\<exists>lc'. update_counts ppt lc objs = Inr lc' \<and> tracked_ids lc' L = Some S \<and>
            counts lc' L = counts lc L) \<and>
         counts lc L = Some (int (card S)) \<and>
         (\<forall>obj. assign_lane ppt lc (bbox obj) = Some L \<longrightarrow> track_id obj \<in> S \<longrightarrow>
            update_counts ppt lc [obj] = Inr lc)"
proof -
  from keyed_run [OF assms(1)] have k: "keyed lc" and l: "lanes lc = ls" by simp_all
  from run_state [of ppt ls frames] assms(1) have
    d: "dom (counts lc) = fst ` set ls" "dom (tracked_ids lc) = fst ` set ls" and
    s: "\<forall>l\<in>fst ` set ls.
           tracked_ids lc l = Some (resolved ppt ls (concat frames) l) \<and>
           counts lc l = Some (int (card (resolved ppt ls (concat frames) l)))"
    by simp_all
  from assms(2) d have L: "L \<in> fst ` set ls" by (auto simp: dom_def)
  with s have "tracked_ids lc L = Some (resolved ppt ls (concat frames) L) \<and>
           counts lc L = Some (int (card (resolved ppt ls (concat frames) L)))" ..
  with assms(2) have c: "counts lc L = Some (int (card S))" by simp
  from update_counts_grows [OF k, of ppt objs] obtain lc' where
    u: "update_counts ppt lc objs = Inr lc'" and g: "grows_by lc (resolved ppt (lanes lc) objs) lc'"
    by (elim exE conjE) (rule that; assumption)
  have sub: "resolved ppt (lanes lc) objs L \<subseteq> S"
    using assms(3) by (auto simp: resolved_def assign_lane_def)
  then have "S \<union> resolved ppt (lanes lc) objs L = S" "resolved ppt (lanes lc) objs L - S = {}"
    by auto
  with grows_by_ids [OF g assms(2) c] have "tracked_ids lc' L = Some S" "counts lc' L = Some (int (card S))"
    by simp_all
  with u c have call: "\<exists>lc'. update_counts ppt lc objs = Inr lc' \<and> tracked_ids lc' L = Some S \<and>
      counts lc' L = counts lc L"
    by simp
  have single: "\<forall>obj. assign_lane ppt lc (bbox obj) = Some L \<longrightarrow> track_id obj \<in> S \<longrightarrow>
      update_counts ppt lc [obj] = Inr lc"
    using assms(2) by (simp add: update_counts_body_def)
  from call c single show ?thesis by (intro conjI)
qed

theorem reattribution_is_idempotent_witness:
  "update_counts_calls rect_test (LaneCounter_init example_lanes) [selftest_objects] = Inr after_selftest \<and>
   tracked_ids after_selftest 1 = Some {1} \<and>
   assign_lane rect_test after_selftest (bbox (unlabelled 1 (130, 400, 210, 500))) = Some 1 \<and>
   (\<exists>lc'. update_counts rect_test after_selftest [unlabelled 1 (130, 400, 210, 500), unlabelled 2 (300, 360, 370, 460)] = Inr lc' \<and>
      tracked_ids lc' 1 = Some {1} \<and> counts lc' 1 = Some 1) \<and>
   update_counts rect_test after_selftest [unlabelled 1 (130, 400, 210, 500)] = Inr after_selftest"
proof -
  have i: "tracked_ids after_selftest 1 = Some {1}"
    by (simp add: after_selftest_def)
  have a: "assign_lane rect_test after_selftest (bbox (unlabelled 1 (130, 400, 210, 500))) = Some 1"
    by (simp add: ledger_simps example_lanes_def unlabelled_def after_selftest_def)
  have h: "\<forall>obj\<in>set [unlabelled 1 (130, 400, 210, 500), unlabelled 2 (300, 360, 370, 460)].
      assign_lane rect_test after_selftest (bbox obj) = Some 1 \<longrightarrow> track_id obj \<in> {1}"
    by (simp add: ledger_simps example_lanes_def unlabelled_def after_selftest_def)
  have c: "counts after_selftest 1 = Some 1"
    by (simp add: after_selftest_def)
  note t = reattribution_is_idempotent [OF selftest_result i h]
  from t have "\<exists>lc'. update_counts rect_test after_selftest [unlabelled 1 (130, 400, 210, 500), unlabelled 2 (300, 360, 370, 460)] = Inr lc' \<and>
      tracked_ids lc' 1 = Some {1} \<and> counts lc' 1 = counts after_selftest 1"
    by (rule conjunct1)
  with c have call: "\<exists>lc'. update_counts rect_test after_selftest [unlabelled 1 (130, 400, 210, 500), unlabelled 2 (300, 360, 370, 460)] = Inr lc' \<and>
      tracked_ids lc' 1 = Some {1} \<and> counts lc' 1 = Some 1"
    by simp
  from t have "\<forall>obj. assign_lane rect_test after_selftest (bbox obj) = Some 1 \<longrightarrow> track_id obj \<in> {1} \<longrightarrow>
      update_counts rect_test after_selftest [obj] = Inr after_selftest"
    by (elim conjE)
  with a have single: "update_counts rect_test after_selftest [unlabelled 1 (130, 400, 210, 500)] = Inr after_selftest"
    by (simp add: unlabelled_def)
  from selftest_result i a call single show ?thesis by (intro conjI)
qed

text \<open>
  C4: at construction (\<open>frames = []\<close>) and after every \<open>update_counts\<close> call, the count of
  every configured lane is the cardinality of its (finite) counted set, and one more call
  never lowers any lane's count.
\<close>

theorem count_is_card_and_never_decreases:
  "\<exists>lc. update_counts_calls ppt (LaneCounter_init ls) frames = Inr lc \<and>
     (\<forall>l\<in>fst ` set ls. \<exists>S. tracked_ids lc l = Some S \<and> finite S \<and> counts lc l = Some (int (card S))) \<and>
     (\<forall>objs. \<exists>lc'. update_counts ppt lc objs = Inr lc' \<and>
        (\<forall>l\<in>fst ` set ls. \<exists>c c'. counts lc l = Some c \<and> counts lc' l = Some c' \<and> c \<le> c'))"
proof -
  from run_state [of ppt ls frames] obtain lc where
    r: "update_counts_calls ppt (LaneCounter_init ls) frames = Inr lc" and
    d: "dom (counts lc) = fst ` set ls" "dom (tracked_ids lc) = fst ` set ls" and
    s: "\<forall>l\<in>fst ` set ls.
           tracked_ids lc l = Some (resolved ppt ls (concat frames) l) \<and>
           counts lc l = Some (int (card (resolved ppt ls (concat frames) l)))"
    by (elim exE conjE) (rule that; assumption)
  have card: "\<forall>l\<in>fst ` set ls. \<exists>S. tracked_ids lc l = Some S \<and> finite S \<and> counts lc l = Some (int (card S))"
  proof
    fix l assume "l \<in> fst ` set ls"
    with s have "tracked_ids lc l = Some (resolved ppt ls (concat frames) l) \<and>
           counts lc l = Some (int (card (resolved ppt ls (concat frames) l)))" ..
    then show "\<exists>S. tracked_ids lc l = Some S \<and> finite S \<and> counts lc l = Some (int (card S))"
      by (intro exI [of _ "resolved ppt ls (concat frames) l"]) (simp add: finite_resolved)
  qed
  have mono: "\<exists>lc'. update_counts ppt lc objs = Inr lc' \<and>
        (\<forall>l\<in>fst ` set ls. \<exists>c c'. counts lc l = Some c \<and> counts lc' l = Some c' \<and> c \<le> c')" for objs
  proof -
    from keyed_run [OF r] have "keyed lc" by simp
    from update_counts_grows [OF this, of ppt objs] obtain lc' where
      u: "update_counts ppt lc objs = Inr lc'" and g: "grows_by lc (resolved ppt (lanes lc) objs) lc'"
      by (elim exE conjE) (rule that; assumption)
    have "\<exists>c c'. counts lc l = Some c \<and> counts lc' l = Some c' \<and> c \<le> c'" if "l \<in> fst ` set ls" for l
    proof -
      from s that have "tracked_ids lc l = Some (resolved ppt ls (concat frames) l) \<and>
           counts lc l = Some (int (card (resolved ppt ls (concat frames) l)))" ..
      then obtain S c where S: "tracked_ids lc l = Some S" and c: "counts lc l = Some c" by simp
      from g have "tracked_ids lc l = Some S \<longrightarrow> counts lc l = Some c \<longrightarrow>
          tracked_ids lc' l = Some (S \<union> resolved ppt (lanes lc) objs l) \<and>
          counts lc' l = Some (c + int (card (resolved ppt (lanes lc) objs l - S)))"
        unfolding grows_by_def by (elim conjE allE)
      with S c have "counts lc' l = Some (c + int (card (resolved ppt (lanes lc) objs l - S)))"
        by simp
      with c show ?thesis by simp
    qed
    then have "\<forall>l\<in>fst ` set ls. \<exists>c c'. counts lc l = Some c \<and> counts lc' l = Some c' \<and> c \<le> c'" ..
    with u show ?thesis by (intro exI [of _ lc'] conjI)
  qed
  then have mono': "\<forall>objs. \<exists>lc'. update_counts ppt lc objs = Inr lc' \<and>
        (\<forall>l\<in>fst ` set ls. \<exists>c c'. counts lc l = Some c \<and> counts lc' l = Some c' \<and> c \<le> c')" ..
  show ?thesis by (rule exI [of _ lc]) (intro conjI r card mono')
qed

theorem count_is_card_and_never_decreases_witness:
  "2 \<in> fst ` set example_lanes \<and>
   (\<exists>lc S. update_counts_calls rect_test (LaneCounter_init example_lanes) [selftest_objects] = Inr lc \<and>
      tracked_ids lc 2 = Some S \<and> finite S \<and> counts lc 2 = Some (int (card S)) \<and>
      count_of (update_counts_calls rect_test (LaneCounter_init example_lanes) [selftest_objects]) 2 = Some 1)"
proof -
  have m: "2 \<in> fst ` set example_lanes" by (simp add: example_lanes_def)
  have c: "count_of (update_counts_calls rect_test (LaneCounter_init example_lanes) [selftest_objects]) 2 = Some 1"
    by (simp add: ledger_simps example_lanes_def selftest_objects_def unlabelled_def count_of_def)
  from count_is_card_and_never_decreases [of rect_test example_lanes "[selftest_objects]"]
  obtain lc where
    r: "update_counts_calls rect_test (LaneCounter_init example_lanes) [selftest_objects] = Inr lc" and
    k: "\<forall>l\<in>fst ` set example_lanes. \<exists>S. tracked_ids lc l = Some S \<and> finite S \<and> counts lc l = Some (int (card S))"
    by (elim exE conjE) (rule that; assumption)
  from k m have "\<exists>S. tracked_ids lc 2 = Some S \<and> finite S \<and> counts lc 2 = Some (int (card S))"
    by (rule bspec)
  then obtain S where "tracked_ids lc 2 = Some S" "finite S" "counts lc 2 = Some (int (card S))"
    by (elim exE conjE) (rule that; assumption)
  with r c have "\<exists>lc S. update_counts_calls rect_test (LaneCounter_init example_lanes) [selftest_objects] = Inr lc \<and>
      tracked_ids lc 2 = Some S \<and> finite S \<and> counts lc 2 = Some (int (card S)) \<and>
      count_of (update_counts_calls rect_test (LaneCounter_init example_lanes) [selftest_objects]) 2 = Some 1"
    by (intro exI [of _ lc] exI [of _ S] conjI)
  with m show ?thesis ..
qed




text \<open>
  C10: \<open>assign_lane\<close> returns \<open>None\<close> or a configured lane identifier, so no call of a run
  raises \<open>KeyError\<close> (the only exception the model of \<open>update_counts\<close> has), and the keys of
  \<open>counts\<close> and of \<open>tracked_ids\<close> are the configured identifiers after every call.
\<close>

theorem lookups_never_miss:
  "\<exists>lc. update_counts_calls ppt (LaneCounter_init ls) frames = Inr lc \<and> lanes lc = ls \<and>
     dom (counts lc) = fst ` set ls \<and> dom (tracked_ids lc) = fst ` set ls \<and>
     (\<forall>b. assign_lane ppt lc b \<in> insert None (Some ` fst ` set ls))"
proof -
  from run_state [of ppt ls frames] obtain lc where
    r: "update_counts_calls ppt (LaneCounter_init ls) frames = Inr lc" and
    l: "lanes lc = ls" and
    d: "dom (counts lc) = fst ` set ls" "dom (tracked_ids lc) = fst ` set ls"
    by (elim exE conjE) (rule that; assumption)
  have "assign_lane ppt lc b \<in> insert None (Some ` fst ` set ls)" for b
  proof (cases "assign_lane ppt lc b")
    case None
    then show ?thesis by simp
  next
    case (Some lane_id)
    with assign_lane_mem [OF Some] l show ?thesis by simp
  qed
  then have "\<forall>b. assign_lane ppt lc b \<in> insert None (Some ` fst ` set ls)" ..
  with r l d show ?thesis by (intro exI [of _ lc] conjI)
qed

section \<open>The tracker: IoU and reconciliation\<close>

lemma overlap_le_area:
  assumes "overlap_area a b \<noteq> 0"
  shows "0 < overlap_area a b \<and> overlap_area a b \<le> box_area a \<and> overlap_area a b \<le> box_area b"
proof -
  obtain ax1 ay1 ax2 ay2 where a: "a = (ax1, ay1, ax2, ay2)" by (cases a)
  obtain bx1 by1 bx2 by2 where b: "b = (bx1, by1, bx2, by2)" by (cases b)
  define w where "w = min ax2 bx2 - max ax1 bx1 + 1"
  define h where "h = min ay2 by2 - max ay1 by1 + 1"
  have ov: "overlap_area a b = max 0 w * max 0 h"
    by (simp add: overlap_area_def a b w_def h_def)
  with assms have w: "0 < w" and h: "0 < h"
    by (auto simp: max_def split: if_splits)
  have wa: "w \<le> ax2 - ax1 + 1" and wb: "w \<le> bx2 - bx1 + 1"
    and ha: "h \<le> ay2 - ay1 + 1" and hb: "h \<le> by2 - by1 + 1"
    by (simp_all add: w_def h_def)
  have "w * h \<le> (ax2 - ax1 + 1) * (ay2 - ay1 + 1)"
    using w h wa ha by (intro mult_mono) simp_all
  moreover have "w * h \<le> (bx2 - bx1 + 1) * (by2 - by1 + 1)"
    using w h wb hb by (intro mult_mono) simp_all
  moreover have "0 < w * h" using w h by simp
  moreover have "overlap_area a b = w * h" using ov w h by simp
  moreover have "box_area a = (ax2 - ax1 + 1) * (ay2 - ay1 + 1)" by (simp add: box_area_def a)
  moreover have "box_area b = (bx2 - bx1 + 1) * (by2 - by1 + 1)" by (simp add: box_area_def b)
  ultimately show ?thesis by simp
qed

lemma compute_iou_unfold:
  "compute_iou a b =
     (if overlap_area a b = 0 then Inr 0
      else if box_area a + box_area b - overlap_area a b = 0 then Inl ZeroDivisionError
      else Inr (overlap_area a b / (box_area a + box_area b - overlap_area a b)))"
  by (cases a; cases b) (simp only: compute_iou_def overlap_area_def box_area_def Let_def prod.case)

lemma compute_iou_spec: "compute_iou a b = Inr (spec_iou a b)"
proof (cases "overlap_area a b = 0")
  case True
  then show ?thesis
    unfolding compute_iou_unfold spec_iou_def by simp
next
  case False
  from overlap_le_area [OF False] have "box_area a + box_area b - overlap_area a b \<noteq> 0"
    by linarith
  with False show ?thesis
    unfolding compute_iou_unfold spec_iou_def by simp
qed





lemma find_match_find:
  "find_match dets tb = Inr (find (\<lambda>det. spec_iou (det_bbox det) tb > 0.5) dets)"
  by (induction dets) (simp_all add: compute_iou_spec)

lemma update_map:
  "VehicleTracker_update dets tracks =
     Inr (map (\<lambda>track. tracked_entry track (find (\<lambda>det. spec_iou (det_bbox det) (track_box track) > 0.5) dets)) tracks)"
  by (induction tracks) (auto simp: find_match_find track_box_def)




lemma subpixel_gap:
  "\<not> pixels_disjoint (0, 0, 10, 10) (10.5, 0, 20, 10) \<and>
   compute_iou (0, 0, 10, 10) (10.5, 0, 20, 10) = Inr (1 / 42)"
  by (simp add: pixels_disjoint_def compute_iou_unfold overlap_area_def box_area_def)

section \<open>Claims about the tracker\<close>





section \<open>The streaming run\<close>

declare str_nat.simps [simp del]

lemmas pipeline_simps = main_def run_def frame_body_def process_frame_def label_text_def
  CSVLogger_log_def csv_header_def timedelta_str_def format_2f_def round_half_even_def
  str_int_def pad2_def digit_def str_nat.simps tracked_entry_def Let_def

lemma frame_body_same_releases: "same_releases w (fst (frame_body ppt k w f))"
  by (simp add: frame_body_def same_releases_def Let_def split: sum.splits prod.splits)

lemma run_loop_same_releases: "same_releases w (fst (run_loop ppt k w fs))"
proof (induction fs arbitrary: w k)
  case Nil
  show ?case by (simp add: same_releases_def)
next
  case (Cons f fs)
  obtain w' s where b: "frame_body ppt (k + 1) w f = (w', s)" by (cases "frame_body ppt (k + 1) w f")
  from frame_body_same_releases [of w ppt "k + 1" f] b have 1: "same_releases w w'" by simp
  show ?case
  proof (cases s)
    case Continue
    with b have "run_loop ppt k w (f # fs) = run_loop ppt (k + 1) w' fs" by simp
    with Cons.IH [of w' "k + 1"] 1 show ?thesis by (simp add: same_releases_def)
  next
    case Break
    with b 1 show ?thesis by simp
  next
    case (Raise e)
    with b 1 show ?thesis by simp
  qed
qed

lemma run_releases_once:
  "cap_releases (fst (run ppt w frames)) = cap_releases w + 1 \<and>
   out_releases (fst (run ppt w frames)) = out_releases w + 1 \<and>
   pbar_closes (fst (run ppt w frames)) = pbar_closes w + 1 \<and>
   window_closes (fst (run ppt w frames)) = window_closes w + 1 \<and>
   csv_closes (fst (run ppt w frames)) = csv_closes w"
proof -
  obtain w1 s where l: "run_loop ppt 0 w frames = (w1, s)" by (cases "run_loop ppt 0 w frames")
  from run_loop_same_releases [of w ppt 0 frames] l have "same_releases w w1" by simp
  with l show ?thesis by (simp add: run_def same_releases_def Let_def)
qed

lemma main_releases:
  "cap_releases (fst (main ppt ls video_fps frames)) = 1 \<and>
   out_releases (fst (main ppt ls video_fps frames)) = 1 \<and>
   pbar_closes (fst (main ppt ls video_fps frames)) = 1 \<and>
   window_closes (fst (main ppt ls video_fps frames)) = 1 \<and>
   csv_closes (fst (main ppt ls video_fps frames)) =
     (if snd (main ppt ls video_fps frames) = None then 1 else 0)"
proof -
  define w0 where "w0 = \<lparr>counter = LaneCounter_init ls, fps = video_fps, show_preview = True,
                video_out = [], csv_rows = [csv_header], progress = 0,
                cap_releases = 0, out_releases = 0, pbar_closes = 0, window_closes = 0, csv_closes = 0\<rparr>"
  obtain w e where r: "run ppt w0 frames = (w, e)" by (cases "run ppt w0 frames")
  from run_releases_once [of ppt w0 frames] r
  have "cap_releases w = 1 \<and> out_releases w = 1 \<and> pbar_closes w = 1 \<and> window_closes w = 1 \<and> csv_closes w = 0"
    by (simp add: w0_def)
  moreover have "main ppt ls video_fps frames =
      (case e of Some x \<Rightarrow> (w, Some x) | None \<Rightarrow> (w\<lparr>csv_closes := csv_closes w + 1\<rparr>, None))"
    using r by (simp add: main_def w0_def Let_def split: option.splits)
  ultimately show ?thesis by (cases e) simp_all
qed

lemma process_frame_keyed:
  "keyed lc \<Longrightarrow> \<exists>lc'. process_frame ppt lc objs = Inr (map label_text objs, lc') \<and> keyed lc' \<and> lanes lc' = lanes lc"
proof -
  assume k: "keyed lc"
  from update_counts_grows [OF k, of ppt objs] obtain lc' where
    u: "update_counts ppt lc objs = Inr lc'" and g: "grows_by lc (resolved ppt (lanes lc) objs) lc'"
    by (elim exE conjE) (rule that; assumption)
  from keyed_grows [OF k g] have "keyed lc'" .
  moreover from g have "lanes lc' = lanes lc" by (simp add: grows_by_def)
  ultimately show ?thesis using u by (simp add: process_frame_def Let_def)
qed

lemma frame_body_benign:
  assumes "keyed (counter w)" "fps w \<noteq> 0" "benign f" "frame_body ppt k w f = (w', s)"
  shows "keyed (counter w') \<and> s \<noteq> Raise KeyError \<and> s \<noteq> Raise ZeroDivisionError \<and> s \<noteq> Raise RuntimeError"
proof (cases "detector_result f")
  case (Inl e)
  with assms show ?thesis by (auto simp: frame_body_def benign_def)
next
  case d: (Inr detections)
  show ?thesis
  proof (cases "sort_result f")
    case (Inl e)
    with d assms show ?thesis by (auto simp: frame_body_def benign_def)
  next
    case t: (Inr tracks)
    obtain objs where u: "VehicleTracker_update detections tracks = Inr objs"
      by (simp add: update_map)
    from process_frame_keyed [OF assms(1), of ppt objs] obtain lc' where
      p: "process_frame ppt (counter w) objs = Inr (map label_text objs, lc')" and k: "keyed lc'"
      by blast
    from assms(2,4) d t u p k show ?thesis
      by (auto simp: frame_body_def Let_def split: if_splits)
  qed
qed

lemma run_loop_benign:
  "keyed (counter w) \<Longrightarrow> fps w \<noteq> 0 \<Longrightarrow> \<forall>f\<in>set fs. benign f \<Longrightarrow> run_loop ppt k w fs = (w', s) \<Longrightarrow>
     s \<noteq> Raise KeyError \<and> s \<noteq> Raise ZeroDivisionError \<and> s \<noteq> Raise RuntimeError"
proof (induction fs arbitrary: w k)
  case Nil
  then show ?case by auto
next
  case (Cons f fs)
  obtain w1 s1 where b: "frame_body ppt (k + 1) w f = (w1, s1)" by (cases "frame_body ppt (k + 1) w f")
  from Cons.prems have bf: "benign f" by simp
  from frame_body_benign [OF Cons.prems(1,2) bf b]
  have k1: "keyed (counter w1)" and s1: "s1 \<noteq> Raise KeyError \<and> s1 \<noteq> Raise ZeroDivisionError \<and> s1 \<noteq> Raise RuntimeError"
    by simp_all
  from frame_body_same_releases [of w ppt "k + 1" f] b Cons.prems(2) have f1: "fps w1 \<noteq> 0"
    by (simp add: same_releases_def)
  show ?case
  proof (cases s1)
    case Continue
    with b Cons.prems(4) have "run_loop ppt (k + 1) w1 fs = (w', s)" by simp
    from Cons.IH [OF k1 f1 _ this] Cons.prems(3) show ?thesis by simp
  next
    case Break
    with b Cons.prems(4) show ?thesis by auto
  next
    case (Raise e)
    with b Cons.prems(4) s1 show ?thesis by auto
  qed
qed

lemma main_closes_everything_without_exception:
  assumes "video_fps \<noteq> 0" "\<forall>f\<in>set frames. benign f"
  shows "snd (main ppt ls video_fps frames) = None \<and>
         released (main ppt ls video_fps frames) = (1, 1, 1, 1)"
proof -
  define w0 where "w0 = \<lparr>counter = LaneCounter_init ls, fps = video_fps, show_preview = True,
                video_out = [], csv_rows = [csv_header], progress = 0,
                cap_releases = 0, out_releases = 0, pbar_closes = 0, window_closes = 0, csv_closes = 0\<rparr>"
  obtain w1 s where l: "run_loop ppt 0 w0 frames = (w1, s)" by (cases "run_loop ppt 0 w0 frames")
  have "keyed (counter w0)" "fps w0 \<noteq> 0" using assms(1) by (simp_all add: w0_def init_keyed)
  from run_loop_benign [OF this assms(2) l]
  have s: "s \<noteq> Raise KeyError \<and> s \<noteq> Raise ZeroDivisionError \<and> s \<noteq> Raise RuntimeError" .
  have "snd (run ppt w0 frames) = None"
  proof (cases s)
    case (Raise e)
    with s have "e = KeyboardInterrupt" by (cases e) simp_all
    with Raise l show ?thesis by (simp add: run_def Let_def)
  qed (use l in \<open>simp_all add: run_def Let_def\<close>)
  then obtain w2 where "run ppt w0 frames = (w2, None)" by (cases "run ppt w0 frames") simp
  then have n: "snd (main ppt ls video_fps frames) = None"
    by (simp add: main_def w0_def [symmetric] Let_def)
  with main_releases [of ppt ls video_fps frames] show ?thesis
    by (simp add: released_def)
qed

lemma log_records_map:
  "log_records ppt lc k t objs =
     map (\<lambda>obj. CSVLogger_log (track_id obj) (the (assign_lane ppt lc (bbox obj))) k t)
         (filter (\<lambda>obj. assign_lane ppt lc (bbox obj) \<noteq> None) objs)"
  by (induction objs) (auto split: option.splits)

lemma frame_body_logs:
  assumes "frame_body ppt k w f = (w', Continue)"
  shows "\<exists>detections tracks objs.
           detector_result f = Inr detections \<and> sort_result f = Inr tracks \<and>
           VehicleTracker_update detections tracks = Inr objs \<and>
           video_out w' = video_out w @ [map label_text objs] \<and>
           csv_rows w' = csv_rows w @
             map (\<lambda>obj. [str_int (track_id obj), str_int (the (assign_lane ppt (counter w') (bbox obj))),
                          str_int k, timedelta_str (py_int (real_of_int k / fps w))])
                 (filter (\<lambda>obj. assign_lane ppt (counter w') (bbox obj) \<noteq> None) objs)"
  using assms
  by (auto simp: frame_body_def process_frame_def Let_def log_records_map CSVLogger_log_def
      split: if_splits sum.splits prod.splits)

lemma format_2f_zero: "format_2f 0 = ''0.00''"
  by (simp add: format_2f_def round_half_even_def str_int_def pad2_def digit_def str_nat.simps)

lemma label_confidence_missing:
  assumes "confidence obj = PyNone \<or> confidence obj = Absent"
  shows "label_text obj = ''ID '' @ str_int (track_id obj) @ '' '' @
      (case class_name obj of Absent \<Rightarrow> ''vehicle'' | PyNone \<Rightarrow> ''None'' | Val s \<Rightarrow> s) @ '' 0.00''"
  using assms by (cases "class_name obj") (auto simp: label_text_def Let_def format_2f_zero)

lemma label_class_name:
  "\<exists>conf. label_text obj = ''ID '' @ str_int (track_id obj) @ '' '' @
      (case class_name obj of Absent \<Rightarrow> ''vehicle'' | PyNone \<Rightarrow> ''None'' | Val s \<Rightarrow> s) @ '' '' @ conf"
  by (cases "class_name obj") (simp_all add: label_text_def Let_def)

section \<open>Claims about the streaming run\<close>

text \<open>
  C2: every exit path releases the input stream, the output writer, the progress bar and
  the CSV log exactly once.  When the detector raises on the first frame, \<open>run\<close> releases the
  first three once and the exception leaves \<open>main\<close> before \<open>csv_logger.close()\<close>: the CSV log
  is closed zero times.
\<close>

theorem csv_log_left_open_on_exception:
  "released (main rect_test example_lanes 30 [failing_detector_frame]) = (1, 1, 1, 0) \<and>
   snd (main rect_test example_lanes 30 [failing_detector_frame]) = Some RuntimeError"
  by (simp add: pipeline_simps ledger_simps example_lanes_def failing_detector_frame_def released_def)

text \<open>
  C8: one log record per tracked object and frame with a lane.  On the frame during which
  the user presses \<open>q\<close> the frame is annotated, counted and written to the output video, and
  the loop breaks before the records of that frame are written: the CSV file holds the
  header only, while the same frame without the key press yields its record.
\<close>

theorem quit_frame_is_counted_but_not_logged:
  "video_out (fst (main rect_test example_lanes 30 [lane1_frame True])) = [[''ID 1 car 0.90'']] \<and>
   counts (counter (fst (main rect_test example_lanes 30 [lane1_frame True]))) 1 = Some 1 \<and>
   csv_rows (fst (main rect_test example_lanes 30 [lane1_frame True])) = [csv_header] \<and>
   snd (main rect_test example_lanes 30 [lane1_frame True]) = None \<and>
   csv_rows (fst (main rect_test example_lanes 30 [lane1_frame False])) =
     [csv_header, [''1'', ''1'', ''1'', ''0:00:00'']]"
  by (simp add: pipeline_simps ledger_simps compute_iou_def example_lanes_def lane1_frame_def)

text \<open>
  C9: the label shows 0.00 for a missing confidence and a placeholder for a missing class.
  A tracked object without a matching detection, as \<open>VehicleTracker.update\<close> returns it, has
  the key \<open>class_name\<close> with the value \<open>None\<close>, so the default \<open>vehicle\<close> of \<open>get\<close> is not used
  and the label reads \<open>None\<close> for the class.
\<close>

theorem unmatched_label_shows_None:
  "VehicleTracker_update [] [(1, 1, 11, 11, 7)] = Inr [unlabelled 7 (1, 1, 11, 11)] \<and>
   label_text (unlabelled 7 (1, 1, 11, 11)) = ''ID 7 None 0.00'' \<and>
   (\<exists>lc. process_frame rect_test (LaneCounter_init example_lanes) [unlabelled 7 (1, 1, 11, 11)] =
      Inr ([''ID 7 None 0.00''], lc))"
  by (simp add: pipeline_simps ledger_simps example_lanes_def unlabelled_def)

end
